theory Spec2Isabelle
  imports Complex_Main
begin

section \<open>Data model of the image store (src/store/imageStore.ts, lines 4-71)\<close>

text \<open>
  A JavaScript \<^verbatim>\<open>number\<close> is modelled as a real, the value of a finite double. The
  arithmetic of the crop and rotate operations, which rounds every result to a double, is an
  argument of these operations, see \<open>arithmetic\<close>.
\<close>

record adjustment =
  brightness :: real
  contrast :: real
  saturation :: real
  sharpness :: real
  noise :: real

text \<open>\<^verbatim>\<open>keyof Adjustment\<close>: the five property names.\<close>

datatype adjustment_key =
  Key_brightness | Key_contrast | Key_saturation | Key_sharpness | Key_noise

record history_entry =
  adjustments :: adjustment
  imageData :: "string option"
  timestamp :: nat

record preset =
  name :: string
  adjustments :: adjustment

text \<open>
  The filter objects of \<^verbatim>\<open>fabric.Image.filters\<close> that the store constructs, each with
  the option it is constructed with.
\<close>

datatype image_filter =
  Grayscale
| Brightness real
| Contrast real
| Saturation real
| Sharpness real
| Noise real

text \<open>
  The geometric attributes of a \<^verbatim>\<open>fabric.Object\<close> that the store reads or writes.
  \<open>ident\<close> stands for the identity of the JavaScript object (what \<^verbatim>\<open>!==\<close> and
  \<^verbatim>\<open>canvas.remove\<close> compare). A \<^verbatim>\<open>fabric.Rect\<close> is a plain \<open>fabric_object\<close>; a
  \<^verbatim>\<open>fabric.Image\<close> extends it with its filter list.
\<close>

record fabric_object =
  ident :: nat
  left :: real
  top' :: real
  width :: real
  height :: real
  scaleX :: real
  scaleY :: real
  angle :: real

record image = fabric_object +
  filters :: "image_filter list"

text \<open>
  The objects on the fabric canvas. The data of an image lives in the store's
  \<open>activeImage\<close>; the canvas holds the image by identity.
\<close>

datatype canvas_object = ImageObj nat | RectObj fabric_object

record canvas =
  objects :: "canvas_object list"

record image_state =
  canvas :: "canvas option"
  activeImage :: "image option"
  isDarkMode :: bool
  isGrayscale :: bool
  isSplitView :: bool
  adjustments :: adjustment
  history :: "history_entry list"
  presets :: "preset list"

definition DEFAULT_ADJUSTMENTS :: adjustment where
  "DEFAULT_ADJUSTMENTS =
     \<lparr>brightness = 0, contrast = 0, saturation = 0, sharpness = 0, noise = 0\<rparr>"

definition DEFAULT_PRESETS :: "preset list" where
  "DEFAULT_PRESETS =
     [\<lparr>preset.name = ''Vintage'',
       preset.adjustments =
         \<lparr>brightness = - 10, contrast = 10, saturation = - 20, sharpness = 0, noise = 20\<rparr>\<rparr>,
      \<lparr>preset.name = ''Dramatic'',
       preset.adjustments =
         \<lparr>brightness = - 5, contrast = 30, saturation = 10, sharpness = 20, noise = 0\<rparr>\<rparr>,
      \<lparr>preset.name = ''Classic B&W'',
       preset.adjustments =
         \<lparr>brightness = 0, contrast = 20, saturation = - 100, sharpness = 10, noise = 0\<rparr>\<rparr>]"

text \<open>The store as \<^verbatim>\<open>create\<close> builds it (lines 146-153).\<close>

definition initial_state :: image_state where
  "initial_state =
     \<lparr>canvas = None, activeImage = None, isDarkMode = False, isGrayscale = False,
      isSplitView = False, image_state.adjustments = DEFAULT_ADJUSTMENTS, history = [],
      presets = DEFAULT_PRESETS\<rparr>"


section \<open>JavaScript primitives used by the store\<close>

text \<open>
  \<^verbatim>\<open>Array.prototype.slice(start, end)\<close>: a negative index counts from the end, and both
  indices are clamped to the array.
\<close>

definition slice :: "int \<Rightarrow> int \<Rightarrow> 'a list \<Rightarrow> 'a list" where
  "slice start fin xs =
     (let len = int (length xs);
          k = (if start < 0 then max (len + start) 0 else min start len);
          final = (if fin < 0 then max (len + fin) 0 else min fin len)
      in take (nat (final - k)) (drop (nat k) xs))"

text \<open>\<^verbatim>\<open>slice(start)\<close>: the end defaults to the length.\<close>

definition slice_from :: "int \<Rightarrow> 'a list \<Rightarrow> 'a list" where
  "slice_from start xs = slice start (int (length xs)) xs"

text \<open>\<^verbatim>\<open>{ ...adjustments, [key]: value }\<close> and \<^verbatim>\<open>adjustments[key]\<close>.\<close>

fun set_knob :: "adjustment_key \<Rightarrow> real \<Rightarrow> adjustment \<Rightarrow> adjustment" where
  "set_knob Key_brightness v a = a\<lparr>brightness := v\<rparr>"
| "set_knob Key_contrast v a = a\<lparr>contrast := v\<rparr>"
| "set_knob Key_saturation v a = a\<lparr>saturation := v\<rparr>"
| "set_knob Key_sharpness v a = a\<lparr>sharpness := v\<rparr>"
| "set_knob Key_noise v a = a\<lparr>noise := v\<rparr>"

fun get_knob :: "adjustment_key \<Rightarrow> adjustment \<Rightarrow> real" where
  "get_knob Key_brightness a = brightness a"
| "get_knob Key_contrast a = contrast a"
| "get_knob Key_saturation a = saturation a"
| "get_knob Key_sharpness a = sharpness a"
| "get_knob Key_noise a = noise a"

text \<open>
  \<^verbatim>\<open>Object.entries(adjustments)\<close>: the own properties in insertion order, which for
  every \<^verbatim>\<open>Adjustment\<close> literal of the source (and for the copies the spread operator
  makes of them) is brightness, contrast, saturation, sharpness, noise.
\<close>

definition entries :: "adjustment \<Rightarrow> (adjustment_key \<times> real) list" where
  "entries a =
     [(Key_brightness, brightness a), (Key_contrast, contrast a),
      (Key_saturation, saturation a), (Key_sharpness, sharpness a), (Key_noise, noise a)]"

text \<open>
  JavaScript's \<^verbatim>\<open>*\<close>, \<^verbatim>\<open>+\<close>, \<^verbatim>\<open>-\<close> and \<^verbatim>\<open>/\<close> on doubles. Each rounds its
  result, so none of them is the operation on the reals, and the operations of the store
  that compute with the geometry of an object take them as given. A quotient that is not a
  finite number (a division by zero) is \<open>None\<close>. The quotients by 100 that
  \<^verbatim>\<open>updateAdjustment\<close> hands to the filter constructors are written as they stand:
  nothing in the store reads them back.
\<close>

record arithmetic =
  fl_mul :: "real \<Rightarrow> real \<Rightarrow> real"
  fl_add :: "real \<Rightarrow> real \<Rightarrow> real"
  fl_sub :: "real \<Rightarrow> real \<Rightarrow> real"
  fl_div :: "real \<Rightarrow> real \<Rightarrow> real option"

text \<open>
  The arithmetic that does not round. An operation on doubles returns the exact result
  whenever that result is a double, so on operands whose exact results are doubles (small
  integers and their halves, as in the examples of this theory) it is JavaScript's.
\<close>

definition js_div :: "real \<Rightarrow> real \<Rightarrow> real option" where
  "js_div a b = (if b = 0 then None else Some (a / b))"

definition exact_arithmetic :: arithmetic where
  "exact_arithmetic = \<lparr>fl_mul = (*), fl_add = (+), fl_sub = (-), fl_div = js_div\<rparr>"

text \<open>
  \<^verbatim>\<open>String.prototype.trim\<close> on strings of 8-bit characters: the white space and line
  terminator characters below U+0100 are tab, line feed, vertical tab, form feed, carriage
  return, space and no-break space.
\<close>

definition is_white_space :: "char \<Rightarrow> bool" where
  "is_white_space c = (of_char c \<in> {9, 10, 11, 12, 13, 32, 160 :: nat})"

definition trim :: "string \<Rightarrow> string" where
  "trim str = rev (dropWhile is_white_space (rev (dropWhile is_white_space str)))"


section \<open>The store's operations (lines 155-356)\<close>

text \<open>
  Every operation is a function from the store before the call to the store after it.
  \<^verbatim>\<open>activeImage.applyFilters()\<close> and \<^verbatim>\<open>canvas.renderAll()\<close> redraw pixels and change
  nothing of the state modelled here. \<^verbatim>\<open>Date.now()\<close> is an argument of the operations
  that read the clock.
\<close>

definition setCanvas :: "canvas \<Rightarrow> image_state \<Rightarrow> image_state" where
  "setCanvas c s = s\<lparr>canvas := Some c\<rparr>"

definition setActiveImage :: "image option \<Rightarrow> image_state \<Rightarrow> image_state" where
  "setActiveImage img s = s\<lparr>activeImage := img\<rparr>"

definition toggleDarkMode :: "image_state \<Rightarrow> image_state" where
  "toggleDarkMode s = s\<lparr>isDarkMode := \<not> isDarkMode s\<rparr>"

text \<open>Lines 161-173. The existing filter list is edited: pushed to, or filtered.\<close>

definition toggleGrayscale :: "image_state \<Rightarrow> image_state" where
  "toggleGrayscale s =
     (case activeImage s of
        None \<Rightarrow> s
      | Some img \<Rightarrow>
          if canvas s = None then s
          else
            s\<lparr>activeImage :=
                Some (img\<lparr>filters :=
                  (if \<not> isGrayscale s then filters img @ [Grayscale]
                   else filter (\<lambda>f. f \<noteq> Grayscale) (filters img))\<rparr>),
              isGrayscale := \<not> isGrayscale s\<rparr>)"

definition toggleSplitView :: "image_state \<Rightarrow> image_state" where
  "toggleSplitView s = s\<lparr>isSplitView := \<not> isSplitView s\<rparr>"

text \<open>Lines 221-225.\<close>

definition addHistoryEntry :: "history_entry \<Rightarrow> image_state \<Rightarrow> image_state" where
  "addHistoryEntry entry s = s\<lparr>history := slice_from (- 19) (history s) @ [entry]\<rparr>"

text \<open>Lines 177-209. The filter list is rebuilt from the adjustments just stored.\<close>

definition updateAdjustment ::
  "nat \<Rightarrow> adjustment_key \<Rightarrow> real \<Rightarrow> image_state \<Rightarrow> image_state" where
  "updateAdjustment now key val s =
     (case activeImage s of
        None \<Rightarrow> s
      | Some img \<Rightarrow>
          if canvas s = None then s
          else
            let adj = set_knob key val (image_state.adjustments s);
                fs = (if isGrayscale s then [Grayscale] else []) @
                     [Brightness (brightness adj / 100),
                      Contrast (contrast adj / 100),
                      Saturation (saturation adj / 100),
                      Sharpness (sharpness adj),
                      Noise (noise adj)]
            in addHistoryEntry
                 \<lparr>history_entry.adjustments = adj, imageData = None, timestamp = now\<rparr>
                 (s\<lparr>image_state.adjustments := adj,
                    activeImage := Some (img\<lparr>filters := fs\<rparr>)\<rparr>))"

text \<open>Lines 211-219.\<close>

definition resetAdjustments :: "image_state \<Rightarrow> image_state" where
  "resetAdjustments s =
     (case activeImage s of
        None \<Rightarrow> s
      | Some img \<Rightarrow>
          if canvas s = None then s
          else
            s\<lparr>activeImage := Some (img\<lparr>filters := []\<rparr>),
              image_state.adjustments := DEFAULT_ADJUSTMENTS,
              isGrayscale := False\<rparr>)"

text \<open>
  Lines 227-239. \<^verbatim>\<open>history[history.length - 2]\<close> is \<^verbatim>\<open>undefined\<close> when the ledger has
  fewer than two entries, and then the defaults are taken.
\<close>

definition undo :: "nat \<Rightarrow> image_state \<Rightarrow> image_state" where
  "undo now s =
     (if length (history s) > 0 \<and> activeImage s \<noteq> None \<and> canvas s \<noteq> None then
        let h = history s;
            previousAdjustments =
              (if 2 \<le> length h then history_entry.adjustments (h ! (length h - 2))
               else DEFAULT_ADJUSTMENTS)
        in updateAdjustment now Key_brightness (brightness previousAdjustments)
             (s\<lparr>image_state.adjustments := previousAdjustments,
                history := slice 0 (- 1) h\<rparr>)
      else s)"

text \<open>Lines 241-245.\<close>

definition addPreset :: "preset \<Rightarrow> image_state \<Rightarrow> image_state" where
  "addPreset p s = s\<lparr>presets := presets s @ [p]\<rparr>"

text \<open>
  Lines 247-252. \<open>clock i\<close> is what \<^verbatim>\<open>Date.now()\<close> returns in the \<open>i\<close>-th call of
  \<^verbatim>\<open>updateAdjustment\<close> that the loop makes.
\<close>

definition applyPreset :: "(nat \<Rightarrow> nat) \<Rightarrow> preset \<Rightarrow> image_state \<Rightarrow> image_state" where
  "applyPreset clock p s =
     fold (\<lambda>(i, key, val). updateAdjustment (clock i) key val)
       (enumerate 0 (entries (preset.adjustments p))) s"

text \<open>Lines 254-258.\<close>

definition deletePreset :: "string \<Rightarrow> image_state \<Rightarrow> image_state" where
  "deletePreset presetName s =
     s\<lparr>presets := filter (\<lambda>p. preset.name p \<noteq> presetName) (presets s)\<rparr>"

text \<open>
  Lines 260-266. fabric's \<^verbatim>\<open>rotate\<close> sets the angle and, as it turns the object about its
  centre, rewrites \<open>left\<close> and \<open>top\<close>: \<open>new_left\<close> and \<open>new_top\<close> are the values it
  computes.
\<close>

definition rotateImage ::
  "arithmetic \<Rightarrow> real \<Rightarrow> real \<Rightarrow> real \<Rightarrow> image_state \<Rightarrow> image_state" where
  "rotateImage ar a new_left new_top s =
     (case activeImage s of
        None \<Rightarrow> s
      | Some img \<Rightarrow>
          if canvas s = None then s
          else
            s\<lparr>activeImage :=
                Some (img\<lparr>angle := fl_add ar (angle img) a,
                         left := new_left, top' := new_top\<rparr>)\<rparr>)"

text \<open>
  Lines 268-297. \<open>rect_ident\<close> is the identity of the rectangle that
  \<^verbatim>\<open>new fabric.Rect\<close> allocates.
\<close>

definition cropImage :: "arithmetic \<Rightarrow> nat \<Rightarrow> image_state \<Rightarrow> image_state" where
  "cropImage ar rect_ident s =
     (case activeImage s of
        None \<Rightarrow> s
      | Some img \<Rightarrow>
          (case canvas s of
             None \<Rightarrow> s
           | Some c \<Rightarrow>
               let cropRect =
                     \<lparr>ident = rect_ident, left = left img, top' = top' img,
                      width = fl_mul ar (width img) (scaleX img),
                      height = fl_mul ar (height img) (scaleY img),
                      scaleX = 1, scaleY = 1, angle = 0\<rparr>
               in s\<lparr>canvas :=
                      Some (c\<lparr>objects :=
                        filter (\<lambda>obj. obj = ImageObj (ident img)) (objects c) @
                        [RectObj cropRect]\<rparr>)\<rparr>))"

subsection \<open>Crop commit (lines 299-356)\<close>

text \<open>\<^verbatim>\<open>objects.find(obj => obj instanceof fabric.Rect)\<close>: the first rectangle.\<close>

fun find_Rect :: "canvas_object list \<Rightarrow> fabric_object option" where
  "find_Rect [] = None"
| "find_Rect (RectObj r # objs) = Some r"
| "find_Rect (ImageObj i # objs) = find_Rect objs"

text \<open>
  The \<^verbatim>\<open>width\<close> and \<^verbatim>\<open>height\<close> of an HTML canvas element are \<^verbatim>\<open>unsigned long\<close>
  attributes: a number assigned to one is truncated towards zero and reduced modulo \<open>2^32\<close>,
  and a result above \<open>2^31 - 1\<close> is replaced by the attribute's default (300 for the
  width, 150 for the height).
\<close>

definition canvas_dimension :: "int \<Rightarrow> real \<Rightarrow> int" where
  "canvas_dimension dflt x =
     (let n = (if 0 \<le> x then \<lfloor>x\<rfloor> else \<lceil>x\<rceil>) mod 2 ^ 32
      in if n \<le> 2147483647 then n else dflt)"

text \<open>
  The arguments of the one \<^verbatim>\<open>drawImage\<close> call, under the names the canvas API gives
  them: the source rectangle, then the destination rectangle.
\<close>

record draw_call =
  sx :: "real option"
  sy :: "real option"
  sWidth :: "real option"
  sHeight :: "real option"
  dx :: real
  dy :: real
  dWidth :: real
  dHeight :: real

text \<open>
  \<^verbatim>\<open>fabric.Image.fromURL(tempCanvas.toDataURL(), ...)\<close>: a new image object whose pixel
  dimensions are those of the temporary canvas, with fabric's defaults for the other
  attributes.
\<close>

definition Image_fromURL :: "nat \<Rightarrow> int \<Rightarrow> int \<Rightarrow> image" where
  "Image_fromURL new_ident tempCanvas_width tempCanvas_height =
     \<lparr>ident = new_ident, left = 0, top' = 0,
      width = real_of_int tempCanvas_width, height = real_of_int tempCanvas_height,
      scaleX = 1, scaleY = 1, angle = 0, filters = []\<rparr>"

text \<open>
  The result is the \<^verbatim>\<open>drawImage\<close> call that the commit makes, if it makes one, and the
  store after it. \<open>has_context\<close> says whether \<^verbatim>\<open>getContext('2d')\<close> returned a context;
  \<open>new_ident\<close> is the identity of the image object that \<^verbatim>\<open>fromURL\<close> allocates. The
  callback of \<^verbatim>\<open>fromURL\<close> (lines 338-355) is run at once.
\<close>

definition applyCrop ::
  "arithmetic \<Rightarrow> bool \<Rightarrow> nat \<Rightarrow> image_state \<Rightarrow> draw_call option \<times> image_state" where
  "applyCrop ar has_context new_ident s =
     (case canvas s of
        None \<Rightarrow> (None, s)
      | Some c \<Rightarrow>
          (case activeImage s of
             None \<Rightarrow> (None, s)
           | Some img \<Rightarrow>
               (case find_Rect (objects c) of
                  None \<Rightarrow> (None, s)
                | Some cropRect \<Rightarrow>
                    if \<not> has_context then (None, s)
                    else
                      let tempCanvas_width =
                            canvas_dimension 300 (fl_mul ar (width cropRect) (scaleX cropRect));
                          tempCanvas_height =
                            canvas_dimension 150 (fl_mul ar (height cropRect) (scaleY cropRect));
                          crop_left =
                            fl_div ar (fl_sub ar (left cropRect) (left img)) (scaleX img);
                          crop_top =
                            fl_div ar (fl_sub ar (top' cropRect) (top' img)) (scaleY img);
                          drawImage =
                            \<lparr>sx = crop_left, sy = crop_top,
                             sWidth = fl_div ar (width cropRect) (scaleX img),
                             sHeight = fl_div ar (height cropRect) (scaleY img),
                             dx = 0, dy = 0,
                             dWidth = real_of_int tempCanvas_width,
                             dHeight = real_of_int tempCanvas_height\<rparr>;
                          croppedImg =
                            (Image_fromURL new_ident tempCanvas_width tempCanvas_height)
                              \<lparr>left := left cropRect, top' := top' cropRect,
                               scaleX := 1, scaleY := 1\<rparr>
                      in (Some drawImage,
                          s\<lparr>canvas :=
                              Some (c\<lparr>objects :=
                                remove1 (RectObj cropRect)
                                  (remove1 (ImageObj (ident img)) (objects c)) @
                                [ImageObj new_ident]\<rparr>),
                            activeImage := Some croppedImg\<rparr>))))"

subsection \<open>The preset controls of the user interface (src/App.tsx, lines 224-277)\<close>

text \<open>\<^verbatim>\<open>handleSavePreset\<close>: the name typed by the user is checked before the store is called.\<close>

definition handleSavePreset :: "string \<Rightarrow> image_state \<Rightarrow> image_state" where
  "handleSavePreset newPresetName s =
     (if trim newPresetName \<noteq> [] then
        addPreset
          \<lparr>preset.name = newPresetName, preset.adjustments = image_state.adjustments s\<rparr> s
      else s)"

text \<open>
  The delete button of a preset is rendered, and so \<^verbatim>\<open>deletePreset\<close> can be called from
  the interface, only when no built-in preset has the preset's name.
\<close>

definition delete_button_shown :: "preset \<Rightarrow> bool" where
  "delete_button_shown p = (find (\<lambda>q. preset.name q = preset.name p) DEFAULT_PRESETS = None)"

definition click_delete :: "preset \<Rightarrow> image_state \<Rightarrow> image_state" where
  "click_delete p s = (if delete_button_shown p then deletePreset (preset.name p) s else s)"


section \<open>Runs of the store\<close>

datatype action =
  SetCanvas canvas
| SetActiveImage "image option"
| ToggleDarkMode
| ToggleGrayscale
| ToggleSplitView
| UpdateAdjustment nat adjustment_key real
| ResetAdjustments
| AddHistoryEntry history_entry
| Undo nat
| AddPreset preset
| ApplyPreset "nat \<Rightarrow> nat" preset
| DeletePreset string
| RotateImage arithmetic real real real
| CropImage arithmetic nat
| ApplyCrop arithmetic bool nat

fun step :: "action \<Rightarrow> image_state \<Rightarrow> image_state" where
  "step (SetCanvas c) s = setCanvas c s"
| "step (SetActiveImage img) s = setActiveImage img s"
| "step ToggleDarkMode s = toggleDarkMode s"
| "step ToggleGrayscale s = toggleGrayscale s"
| "step ToggleSplitView s = toggleSplitView s"
| "step (UpdateAdjustment now key val) s = updateAdjustment now key val s"
| "step ResetAdjustments s = resetAdjustments s"
| "step (AddHistoryEntry entry) s = addHistoryEntry entry s"
| "step (Undo now) s = undo now s"
| "step (AddPreset p) s = addPreset p s"
| "step (ApplyPreset clock p) s = applyPreset clock p s"
| "step (DeletePreset presetName) s = deletePreset presetName s"
| "step (RotateImage ar a new_left new_top) s = rotateImage ar a new_left new_top s"
| "step (CropImage ar rect_ident) s = cropImage ar rect_ident s"
| "step (ApplyCrop ar has_context new_ident) s = snd (applyCrop ar has_context new_ident s)"

text \<open>The store after a sequence of calls, the first call first.\<close>

definition run :: "action list \<Rightarrow> image_state \<Rightarrow> image_state" where
  "run acts s = fold step acts s"

text \<open>A sequence of \<^verbatim>\<open>updateAdjustment\<close> calls, each with its clock reading.\<close>

definition updates :: "(nat \<times> adjustment_key \<times> real) list \<Rightarrow> image_state \<Rightarrow> image_state" where
  "updates calls s = fold (\<lambda>(now, key, val). updateAdjustment now key val) calls s"

text \<open>
  The snapshots that a sequence of calls leaves, written down without the store: the
  \<open>i\<close>-th one holds the adjustments after the first \<open>i\<close> calls and the clock reading of the
  \<open>i\<close>-th call.
\<close>

fun snapshots :: "adjustment \<Rightarrow> (nat \<times> adjustment_key \<times> real) list \<Rightarrow> history_entry list" where
  "snapshots a [] = []"
| "snapshots a ((now, key, val) # calls) =
     \<lparr>history_entry.adjustments = set_knob key val a, imageData = None, timestamp = now\<rparr> #
     snapshots (set_knob key val a) calls"

text \<open>Every knob within the range of the sliders.\<close>

definition in_range :: "adjustment \<Rightarrow> bool" where
  "in_range a =
     (- 100 \<le> brightness a \<and> brightness a \<le> 100 \<and>
      - 100 \<le> contrast a \<and> contrast a \<le> 100 \<and>
      - 100 \<le> saturation a \<and> saturation a \<le> 100 \<and>
      - 100 \<le> sharpness a \<and> sharpness a \<le> 100 \<and>
      - 100 \<le> noise a \<and> noise a \<le> 100)"

text \<open>
  A filter list in which a grayscale operation comes first and none comes after another
  kind of operation.
\<close>

definition grayscale_precedes :: "image_filter list \<Rightarrow> bool" where
  "grayscale_precedes fs =
     (takeWhile (\<lambda>f. f = Grayscale) fs \<noteq> [] \<and>
      list_all (\<lambda>f. f \<noteq> Grayscale) (dropWhile (\<lambda>f. f = Grayscale) fs))"


text \<open>
  The five calls that the replay of a preset is said to make: one per knob, in the order of
  the knobs, each with the preset's value and its own clock reading.
\<close>

definition preset_calls :: "(nat \<Rightarrow> nat) \<Rightarrow> preset \<Rightarrow> (nat \<times> adjustment_key \<times> real) list" where
  "preset_calls clock p =
     [(clock 0, Key_brightness, brightness (preset.adjustments p)),
      (clock 1, Key_contrast, contrast (preset.adjustments p)),
      (clock 2, Key_saturation, saturation (preset.adjustments p)),
      (clock 3, Key_sharpness, sharpness (preset.adjustments p)),
      (clock 4, Key_noise, noise (preset.adjustments p))]"

text \<open>A length that is a whole number of pixels, within the range of a canvas dimension.\<close>

definition whole_pixels :: "real \<Rightarrow> bool" where
  "whole_pixels x = (0 \<le> x \<and> x \<le> 2147483647 \<and> real_of_int \<lfloor>x\<rfloor> = x)"


section \<open>Example stores\<close>

definition example_image :: image where
  "example_image =
     \<lparr>ident = 1, left = 0, top' = 0, width = 200, height = 200,
      scaleX = 1, scaleY = 1, angle = 0, filters = []\<rparr>"

definition example_canvas :: canvas where
  "example_canvas = \<lparr>objects = [ImageObj 1]\<rparr>"

text \<open>The store once the canvas is set up and an image is loaded.\<close>

definition loaded_state :: image_state where
  "loaded_state = setActiveImage (Some example_image) (setCanvas example_canvas initial_state)"

definition three_calls :: "(nat \<times> adjustment_key \<times> real) list" where
  "three_calls = [(1, Key_brightness, 10), (2, Key_contrast, 20), (3, Key_saturation, 30)]"

definition twenty_five_calls :: "(nat \<times> adjustment_key \<times> real) list" where
  "twenty_five_calls = map (\<lambda>i. (i, Key_brightness, real i)) [0..<25]"

text \<open>The store after three edits, and the same store once the image is taken away.\<close>

definition edited_state :: image_state where
  "edited_state = updates three_calls loaded_state"

definition unloaded_state :: image_state where
  "unloaded_state = setActiveImage None edited_state"


text \<open>
  Crop mode on the loaded 200 by 200 image, with the overlay rectangle over the left half
  of the image; and the same with the rectangle that \<^verbatim>\<open>cropImage\<close> lays over the whole
  image, after the user has dragged its handle to half the width (fabric resizes an object
  by its scale).
\<close>

definition half_rect :: fabric_object where
  "half_rect =
     \<lparr>ident = 2, left = 0, top' = 0, width = 100, height = 200,
      scaleX = 1, scaleY = 1, angle = 0\<rparr>"

definition cropping_state :: image_state where
  "cropping_state =
     setCanvas \<lparr>objects = [ImageObj 1, RectObj half_rect]\<rparr> loaded_state"

definition resized_rect :: fabric_object where
  "resized_rect =
     \<lparr>ident = 2, left = 0, top' = 0, width = 200, height = 200,
      scaleX = 1 / 2, scaleY = 1, angle = 0\<rparr>"

definition resized_cropping_state :: image_state where
  "resized_cropping_state =
     setCanvas \<lparr>objects = [ImageObj 1, RectObj resized_rect]\<rparr> loaded_state"

text \<open>
  An image of 201 by 200 pixels shown at half its size, and the store once it is loaded and
  crop mode is entered: the overlay rectangle is 100.5 by 100.
\<close>

definition half_scale_image :: image where
  "half_scale_image =
     \<lparr>ident = 1, left = 0, top' = 0, width = 201, height = 200,
      scaleX = 1 / 2, scaleY = 1 / 2, angle = 0, filters = []\<rparr>"

definition crop_mode_state :: image_state where
  "crop_mode_state =
     run [SetCanvas example_canvas, SetActiveImage (Some half_scale_image),
          CropImage exact_arithmetic 2] initial_state"

text \<open>The store after one edit of a loaded image, once the image is taken away.\<close>

definition one_edit_unloaded_state :: image_state where
  "one_edit_unloaded_state =
     run [SetCanvas example_canvas, SetActiveImage (Some example_image),
          UpdateAdjustment 1 Key_contrast 40, SetActiveImage None] initial_state"

text \<open>A preset of the user, and a preset name made of spaces only.\<close>

definition preset_X :: preset where
  "preset_X =
     \<lparr>preset.name = ''X'',
      preset.adjustments =
        \<lparr>brightness = 10, contrast = 20, saturation = 30, sharpness = 40, noise = 50\<rparr>\<rparr>"

definition blank_preset :: preset where
  "blank_preset = \<lparr>preset.name = ''  '', preset.adjustments = DEFAULT_ADJUSTMENTS\<rparr>"


section \<open>Basic facts\<close>

subsection \<open>The ledger under updates\<close>

lemma slice_from_last19: "slice_from (- 19) xs = drop (length xs - 19) xs"
  by (auto simp: slice_from_def slice_def Let_def max_def min_def nat_diff_distrib')

lemma slice_drop_last: "slice 0 (- 1) xs = butlast xs"
  by (auto simp: slice_def Let_def max_def min_def butlast_conv_take nat_diff_distrib')

lemma addHistoryEntry_history:
  "history (addHistoryEntry e s) = drop (length (history s) - 19) (history s) @ [e]"
  by (simp add: addHistoryEntry_def slice_from_last19)

lemma last20_append:
  "drop (length (drop (length xs - 20) xs @ ys) - 20) (drop (length xs - 20) xs @ ys) =
   drop (length (xs @ ys) - 20) (xs @ ys)"
  by (cases "length xs \<le> 20") (auto simp: add.commute)

lemma updateAdjustment_loaded:
  assumes "canvas s \<noteq> None" "activeImage s \<noteq> None"
  shows "image_state.adjustments (updateAdjustment now key val s) =
           set_knob key val (image_state.adjustments s)"
    and "history (updateAdjustment now key val s) =
           drop (length (history s) - 19) (history s) @
           [\<lparr>history_entry.adjustments = set_knob key val (image_state.adjustments s),
             imageData = None, timestamp = now\<rparr>]"
    and "canvas (updateAdjustment now key val s) \<noteq> None"
    and "activeImage (updateAdjustment now key val s) \<noteq> None"
    and "isGrayscale (updateAdjustment now key val s) = isGrayscale s"
    and "presets (updateAdjustment now key val s) = presets s"
  using assms
  by (auto simp: updateAdjustment_def addHistoryEntry_def slice_from_last19 Let_def)

lemma updates_Cons:
  "updates ((now, key, val) # calls) s = updates calls (updateAdjustment now key val s)"
  by (simp add: updates_def)

lemma updates_loaded:
  assumes "canvas s \<noteq> None" "activeImage s \<noteq> None"
  shows "canvas (updates calls s) \<noteq> None \<and> activeImage (updates calls s) \<noteq> None"
  using assms
proof (induction calls arbitrary: s)
  case Nil
  then show ?case by (simp add: updates_def)
next
  case (Cons call calls)
  obtain now key val where call: "call = (now, key, val)" by (cases call) auto
  show ?case
    unfolding call updates_Cons
    by (rule Cons.IH) (simp_all add: updateAdjustment_loaded Cons.prems)
qed

lemma updates_history:
  assumes "canvas s \<noteq> None" "activeImage s \<noteq> None" "calls \<noteq> []"
  shows "history (updates calls s) =
           drop (length (history s @ snapshots (image_state.adjustments s) calls) - 20)
             (history s @ snapshots (image_state.adjustments s) calls)"
  using assms
proof (induction calls arbitrary: s)
  case Nil
  then show ?case by simp
next
  case (Cons call calls)
  obtain now key val where call: "call = (now, key, val)" by (cases call) auto
  let ?s1 = "updateAdjustment now key val s"
  let ?e = "\<lparr>history_entry.adjustments = set_knob key val (image_state.adjustments s),
             imageData = None, timestamp = now\<rparr>"
  have h1: "history ?s1 = drop (length (history s @ [?e]) - 20) (history s @ [?e])"
    using Cons.prems by (simp add: updateAdjustment_loaded)
  have a1: "image_state.adjustments ?s1 = set_knob key val (image_state.adjustments s)"
    using Cons.prems by (simp add: updateAdjustment_loaded)
  show ?case
  proof (cases "calls = []")
    case True
    then show ?thesis using h1 by (simp add: call updates_def)
  next
    case False
    have "history (updates calls ?s1) =
            drop (length (history ?s1 @ snapshots (image_state.adjustments ?s1) calls) - 20)
              (history ?s1 @ snapshots (image_state.adjustments ?s1) calls)"
      using Cons.prems False by (intro Cons.IH) (simp_all add: updateAdjustment_loaded)
    also have "\<dots> = drop (length ((history s @ [?e]) @ snapshots (image_state.adjustments ?s1) calls) - 20)
              ((history s @ [?e]) @ snapshots (image_state.adjustments ?s1) calls)"
      unfolding h1 by (rule last20_append)
    finally show ?thesis by (simp add: call updates_Cons a1)
  qed
qed

lemma length_snapshots: "length (snapshots a calls) = length calls"
  by (induction a calls rule: snapshots.induct) simp_all

subsection \<open>What every run of the store preserves\<close>

lemma updateAdjustment_unloaded:
  "canvas s = None \<or> activeImage s = None \<Longrightarrow> updateAdjustment now key val s = s"
  by (auto simp: updateAdjustment_def split: option.splits)

lemma updateAdjustment_history_bound:
  "length (history s) \<le> 20 \<Longrightarrow> length (history (updateAdjustment now key val s)) \<le> 20"
  by (cases "canvas s = None \<or> activeImage s = None")
     (auto simp: updateAdjustment_unloaded updateAdjustment_loaded)

lemma updateAdjustment_empty_default:
  "(history s = [] \<longrightarrow> image_state.adjustments s = DEFAULT_ADJUSTMENTS) \<Longrightarrow>
   history (updateAdjustment now key val s) = [] \<longrightarrow>
   image_state.adjustments (updateAdjustment now key val s) = DEFAULT_ADJUSTMENTS"
  by (cases "canvas s = None \<or> activeImage s = None")
     (auto simp: updateAdjustment_unloaded updateAdjustment_loaded)

lemma applyPreset_unfold:
  "applyPreset clock p s =
     updateAdjustment (clock 4) Key_noise (noise (preset.adjustments p))
      (updateAdjustment (clock 3) Key_sharpness (sharpness (preset.adjustments p))
        (updateAdjustment (clock 2) Key_saturation (saturation (preset.adjustments p))
          (updateAdjustment (clock 1) Key_contrast (contrast (preset.adjustments p))
            (updateAdjustment (clock 0) Key_brightness (brightness (preset.adjustments p)) s))))"
  by (simp add: applyPreset_def entries_def eval_nat_numeral)

lemma undo_unfold:
  "undo now s =
     (if history s = [] \<or> activeImage s = None \<or> canvas s = None then s
      else updateAdjustment now Key_brightness
             (brightness (if 2 \<le> length (history s)
                then history_entry.adjustments (history s ! (length (history s) - 2))
                else DEFAULT_ADJUSTMENTS))
             (s\<lparr>image_state.adjustments :=
                  (if 2 \<le> length (history s)
                   then history_entry.adjustments (history s ! (length (history s) - 2))
                   else DEFAULT_ADJUSTMENTS),
                history := butlast (history s)\<rparr>))"
  by (simp add: undo_def Let_def slice_drop_last)

lemma undo_history_bound:
  "length (history s) \<le> 20 \<Longrightarrow> length (history (undo now s)) \<le> 20"
  unfolding undo_unfold by (simp add: updateAdjustment_history_bound)

lemma undo_empty_default:
  "(history s = [] \<longrightarrow> image_state.adjustments s = DEFAULT_ADJUSTMENTS) \<Longrightarrow>
   history (undo now s) = [] \<longrightarrow> image_state.adjustments (undo now s) = DEFAULT_ADJUSTMENTS"
  unfolding undo_unfold by (simp add: updateAdjustment_loaded)

lemma step_history_bound:
  assumes "length (history s) \<le> 20"
  shows "length (history (step a s)) \<le> 20"
proof (cases a)
  case (UpdateAdjustment now key val)
  then show ?thesis using assms by (simp add: updateAdjustment_history_bound)
next
  case (Undo now)
  then show ?thesis using assms by (simp add: undo_history_bound)
next
  case (ApplyPreset clock p)
  then show ?thesis using assms by (simp add: applyPreset_unfold updateAdjustment_history_bound)
next
  case (AddHistoryEntry e)
  then show ?thesis by (simp add: addHistoryEntry_history)
qed (use assms in \<open>simp_all add: setCanvas_def setActiveImage_def toggleDarkMode_def toggleGrayscale_def
       toggleSplitView_def resetAdjustments_def addPreset_def deletePreset_def rotateImage_def
       cropImage_def applyCrop_def Let_def split: option.splits\<close>)

lemma step_empty_default:
  assumes "history s = [] \<longrightarrow> image_state.adjustments s = DEFAULT_ADJUSTMENTS"
  shows "history (step a s) = [] \<longrightarrow> image_state.adjustments (step a s) = DEFAULT_ADJUSTMENTS"
proof (cases a)
  case (UpdateAdjustment now key val)
  then show ?thesis using assms by (simp add: updateAdjustment_empty_default)
next
  case (Undo now)
  then show ?thesis using assms by (simp add: undo_empty_default)
next
  case (ApplyPreset clock p)
  then show ?thesis using assms
    by (simp only: step.simps applyPreset_unfold) (intro updateAdjustment_empty_default)
next
  case (AddHistoryEntry e)
  then show ?thesis by (simp add: addHistoryEntry_history)
qed (use assms in \<open>simp_all add: setCanvas_def setActiveImage_def toggleDarkMode_def toggleGrayscale_def
       toggleSplitView_def resetAdjustments_def addPreset_def deletePreset_def rotateImage_def
       cropImage_def applyCrop_def Let_def split: option.splits\<close>)

lemma run_snoc: "run (acts @ [a]) s = step a (run acts s)"
  by (simp add: run_def)

lemma run_history_bound: "length (history (run acts initial_state)) \<le> 20"
proof (induction acts rule: rev_induct)
  case Nil
  then show ?case by (simp add: run_def initial_state_def)
next
  case (snoc a acts)
  then show ?case by (simp add: run_snoc step_history_bound)
qed

lemma run_empty_default:
  "history (run acts initial_state) = [] \<longrightarrow>
   image_state.adjustments (run acts initial_state) = DEFAULT_ADJUSTMENTS"
proof (induction acts rule: rev_induct)
  case Nil
  then show ?case by (simp add: run_def initial_state_def)
next
  case (snoc a acts)
  then show ?case unfolding run_snoc by (rule step_empty_default)
qed

lemma loaded_state_simps:
  "canvas loaded_state = Some example_canvas"
  "activeImage loaded_state = Some example_image"
  "isGrayscale loaded_state = False"
  "image_state.adjustments loaded_state = DEFAULT_ADJUSTMENTS"
  "history loaded_state = []"
  "presets loaded_state = DEFAULT_PRESETS"
  by (simp_all add: loaded_state_def setActiveImage_def setCanvas_def initial_state_def)


section \<open>The guards on the active image and the canvas\<close>

text \<open>
  Claim C10. When the store has no active image or no canvas, \<^verbatim>\<open>updateAdjustment\<close>,
  \<^verbatim>\<open>toggleGrayscale\<close> and \<^verbatim>\<open>undo\<close> return the store as it was: the adjustments, the
  grayscale flag, the history ledger and everything else are unchanged.
\<close>

theorem no_image_or_canvas_noop:
  "canvas s = None \<or> activeImage s = None \<Longrightarrow>
     updateAdjustment now key val s = s \<and> toggleGrayscale s = s \<and> undo now s = s"
proof (intro conjI)
  assume a: "canvas s = None \<or> activeImage s = None"
  show "updateAdjustment now key val s = s"
    using a by (rule updateAdjustment_unloaded)
  show "toggleGrayscale s = s"
    using a by (auto simp: toggleGrayscale_def split: option.splits)
  show "undo now s = s"
    using a by (auto simp: undo_def)
qed

text \<open>
  Claim C10 at a store that has a canvas, three ledger entries and adjustments away from
  the defaults, but no active image.
\<close>

theorem no_image_or_canvas_noop_witness:
  "activeImage unloaded_state = None \<and>
   updateAdjustment 9 Key_noise 5 unloaded_state = unloaded_state \<and>
   toggleGrayscale unloaded_state = unloaded_state \<and>
   undo 9 unloaded_state = unloaded_state"
  using no_image_or_canvas_noop [of unloaded_state 9 Key_noise 5]
  by (simp add: unloaded_state_def setActiveImage_def)


section \<open>The bound of the history ledger\<close>

text \<open>
  Claim C4. The ledger never holds more than 20 entries, whatever sequence of store
  operations is run from the initial store. From every store with a canvas and an active
  image, 25 calls of \<^verbatim>\<open>updateAdjustment\<close> leave a ledger of exactly 20 entries: the
  snapshots of the 20 most recent calls, in the order of the calls.
\<close>

theorem history_bounded_to_20:
  "length (history (run acts initial_state)) \<le> 20 \<and>
   (canvas s \<noteq> None \<and> activeImage s \<noteq> None \<and> length calls = 25 \<longrightarrow>
      length (history (updates calls s)) = 20 \<and>
      history (updates calls s) = drop 5 (snapshots (image_state.adjustments s) calls))"
proof (intro conjI impI)
  show "length (history (run acts initial_state)) \<le> 20"
    by (rule run_history_bound)
next
  assume a: "canvas s \<noteq> None \<and> activeImage s \<noteq> None \<and> length calls = 25"
  then have ne: "calls \<noteq> []" by auto
  have h: "history (updates calls s) = drop 5 (snapshots (image_state.adjustments s) calls)"
    using a by (simp add: updates_history [OF _ _ ne] length_snapshots)
  show "history (updates calls s) = drop 5 (snapshots (image_state.adjustments s) calls)"
    by (rule h)
  show "length (history (updates calls s)) = 20"
    using a by (simp add: h length_snapshots)
qed

text \<open>
  Claim C4 at a run that loads an image, edits and undoes, and at 25 brightness edits of
  the loaded store.
\<close>

theorem history_bounded_to_20_witness:
  "length (history (run [SetCanvas example_canvas, SetActiveImage (Some example_image),
      UpdateAdjustment 1 Key_noise 5, Undo 2] initial_state)) \<le> 20 \<and>
   canvas loaded_state \<noteq> None \<and> activeImage loaded_state \<noteq> None \<and>
   length twenty_five_calls = 25 \<and>
   length (history (updates twenty_five_calls loaded_state)) = 20 \<and>
   history (updates twenty_five_calls loaded_state) =
     drop 5 (snapshots DEFAULT_ADJUSTMENTS twenty_five_calls)"
proof -
  have len: "length twenty_five_calls = 25"
    by (simp add: twenty_five_calls_def)
  show ?thesis
    using history_bounded_to_20 [of "[SetCanvas example_canvas,
      SetActiveImage (Some example_image), UpdateAdjustment 1 Key_noise 5, Undo 2]"
      loaded_state twenty_five_calls] len
    by (simp add: loaded_state_simps length_snapshots)
qed

section \<open>Undo\<close>

lemma set_knob_same: "set_knob key (get_knob key a) a = a"
  by (cases key) simp_all

lemma get_set_knob: "get_knob key (set_knob key val a) = val"
  by (cases key) simp_all

lemma undo_loaded:
  assumes "canvas s \<noteq> None" "activeImage s \<noteq> None" "2 \<le> length (history s)"
  shows "image_state.adjustments (undo now s) =
           history_entry.adjustments (history s ! (length (history s) - 2))"
    and "history (undo now s) =
           drop (length (history s) - 20) (butlast (history s)) @
           [\<lparr>history_entry.adjustments =
               history_entry.adjustments (history s ! (length (history s) - 2)),
             imageData = None, timestamp = now\<rparr>]"
proof -
  have ne: "history s \<noteq> []" using assms(3) by auto
  have k: "set_knob Key_brightness (brightness a) a = a" for a
    using set_knob_same [of Key_brightness a] by simp
  show "image_state.adjustments (undo now s) =
           history_entry.adjustments (history s ! (length (history s) - 2))"
    using assms ne by (auto simp: undo_unfold updateAdjustment_loaded k)
  show "history (undo now s) =
           drop (length (history s) - 20) (butlast (history s)) @
           [\<lparr>history_entry.adjustments =
               history_entry.adjustments (history s ! (length (history s) - 2)),
             imageData = None, timestamp = now\<rparr>]"
    using assms ne by (auto simp: undo_unfold updateAdjustment_loaded k)
qed

lemma edited_state_simps:
  "canvas edited_state = Some example_canvas"
  "activeImage edited_state =
     Some (example_image\<lparr>filters :=
       [Brightness (1 / 10), Contrast (1 / 5), Saturation (3 / 10), Sharpness 0, Noise 0]\<rparr>)"
  "isGrayscale edited_state = False"
  "image_state.adjustments edited_state =
     \<lparr>brightness = 10, contrast = 20, saturation = 30, sharpness = 0, noise = 0\<rparr>"
  "history edited_state =
     [\<lparr>history_entry.adjustments =
         \<lparr>brightness = 10, contrast = 0, saturation = 0, sharpness = 0, noise = 0\<rparr>,
       imageData = None, timestamp = 1\<rparr>,
      \<lparr>history_entry.adjustments =
         \<lparr>brightness = 10, contrast = 20, saturation = 0, sharpness = 0, noise = 0\<rparr>,
       imageData = None, timestamp = 2\<rparr>,
      \<lparr>history_entry.adjustments =
         \<lparr>brightness = 10, contrast = 20, saturation = 30, sharpness = 0, noise = 0\<rparr>,
       imageData = None, timestamp = 3\<rparr>]"
  by (simp_all add: edited_state_def three_calls_def updates_def updateAdjustment_def
        addHistoryEntry_def slice_from_last19 loaded_state_simps Let_def
        DEFAULT_ADJUSTMENTS_def)

lemma undo_keeps_loaded:
  assumes "canvas s \<noteq> None" "activeImage s \<noteq> None"
  shows "canvas (undo now s) \<noteq> None" and "activeImage (undo now s) \<noteq> None"
  using assms by (simp_all add: undo_unfold updateAdjustment_loaded del: not_None_eq)

text \<open>
  A second \<^verbatim>\<open>undo\<close> finds the re-appended snapshot before the last entry and restores
  the same adjustments again; the ledger still has three entries.
\<close>

lemma second_undo_restores_same_entry:
  "image_state.adjustments (undo 5 (undo 4 edited_state)) =
     \<lparr>brightness = 10, contrast = 20, saturation = 0, sharpness = 0, noise = 0\<rparr> \<and>
   length (history (undo 5 (undo 4 edited_state))) = 3"
proof -
  have h: "history (undo 4 edited_state) =
     [\<lparr>history_entry.adjustments =
         \<lparr>brightness = 10, contrast = 0, saturation = 0, sharpness = 0, noise = 0\<rparr>,
       imageData = None, timestamp = 1\<rparr>,
      \<lparr>history_entry.adjustments =
         \<lparr>brightness = 10, contrast = 20, saturation = 0, sharpness = 0, noise = 0\<rparr>,
       imageData = None, timestamp = 2\<rparr>,
      \<lparr>history_entry.adjustments =
         \<lparr>brightness = 10, contrast = 20, saturation = 0, sharpness = 0, noise = 0\<rparr>,
       imageData = None, timestamp = 4\<rparr>]"
    by (simp add: undo_loaded edited_state_simps)
  have l: "canvas (undo 4 edited_state) \<noteq> None" "activeImage (undo 4 edited_state) \<noteq> None"
    by (simp_all add: undo_keeps_loaded edited_state_simps)
  show ?thesis
    by (simp add: undo_loaded l h)
qed

text \<open>
  Claim C1, evaluated on the ledger \<open>[A, B, C]\<close> that three edits of a loaded image
  leave. \<^verbatim>\<open>undo\<close> sets the adjustments to those of \<open>B\<close> and cuts the ledger to
  \<open>[A, B]\<close>, but the call of \<^verbatim>\<open>updateAdjustment\<close> by which it reapplies the filters
  appends a new snapshot of \<open>B\<close>'s adjustments: the ledger is \<open>[A, B, B']\<close>, as long as
  before, and not the original ledger without its last entry.
\<close>

theorem undo_reappends_snapshot:
  "history edited_state =
     [\<lparr>history_entry.adjustments =
         \<lparr>brightness = 10, contrast = 0, saturation = 0, sharpness = 0, noise = 0\<rparr>,
       imageData = None, timestamp = 1\<rparr>,
      \<lparr>history_entry.adjustments =
         \<lparr>brightness = 10, contrast = 20, saturation = 0, sharpness = 0, noise = 0\<rparr>,
       imageData = None, timestamp = 2\<rparr>,
      \<lparr>history_entry.adjustments =
         \<lparr>brightness = 10, contrast = 20, saturation = 30, sharpness = 0, noise = 0\<rparr>,
       imageData = None, timestamp = 3\<rparr>] \<and>
   image_state.adjustments (undo 4 edited_state) =
     \<lparr>brightness = 10, contrast = 20, saturation = 0, sharpness = 0, noise = 0\<rparr> \<and>
   history (undo 4 edited_state) =
     [\<lparr>history_entry.adjustments =
         \<lparr>brightness = 10, contrast = 0, saturation = 0, sharpness = 0, noise = 0\<rparr>,
       imageData = None, timestamp = 1\<rparr>,
      \<lparr>history_entry.adjustments =
         \<lparr>brightness = 10, contrast = 20, saturation = 0, sharpness = 0, noise = 0\<rparr>,
       imageData = None, timestamp = 2\<rparr>,
      \<lparr>history_entry.adjustments =
         \<lparr>brightness = 10, contrast = 20, saturation = 0, sharpness = 0, noise = 0\<rparr>,
       imageData = None, timestamp = 4\<rparr>] \<and>
   history (undo 4 edited_state) \<noteq> butlast (history edited_state)"
  by (simp add: undo_loaded edited_state_simps)

text \<open>
  Claim C5 fails without an active image: after one edit of a loaded image and the removal
  of the image, the ledger has exactly one entry, and \<^verbatim>\<open>undo\<close> leaves the contrast at
  40.
\<close>

theorem undo_without_image_keeps_adjustments:
  "length (history one_edit_unloaded_state) = 1 \<and>
   contrast (image_state.adjustments (undo 5 one_edit_unloaded_state)) = 40 \<and>
   image_state.adjustments (undo 5 one_edit_unloaded_state) \<noteq> DEFAULT_ADJUSTMENTS"
  by (simp add: one_edit_unloaded_state_def run_def setCanvas_def setActiveImage_def
        updateAdjustment_def addHistoryEntry_def slice_from_last19 initial_state_def Let_def
        undo_def DEFAULT_ADJUSTMENTS_def)

text \<open>
  Claim C5 as amended. In every store that a run of store operations reaches from the
  initial store,
  \<^verbatim>\<open>undo\<close> on an empty ledger leaves the adjustments at the defaults (the call changes
  nothing, in any store, and a reachable store with an empty ledger still has the default
  adjustments).
  In every store with a canvas and an active image, \<^verbatim>\<open>undo\<close> on a ledger of exactly one
  entry sets the adjustments to the defaults, all five knobs 0.
\<close>

theorem undo_short_ledger_restores_defaults:
  "(history (run acts initial_state) = [] \<longrightarrow>
      image_state.adjustments (undo now (run acts initial_state)) = DEFAULT_ADJUSTMENTS) \<and>
   (history s = [] \<longrightarrow> undo now s = s) \<and>
   (canvas s \<noteq> None \<and> activeImage s \<noteq> None \<and> length (history s) = 1 \<longrightarrow>
      image_state.adjustments (undo now s) = DEFAULT_ADJUSTMENTS)"
proof (intro conjI impI)
  assume "history (run acts initial_state) = []"
  then show "image_state.adjustments (undo now (run acts initial_state)) = DEFAULT_ADJUSTMENTS"
    using run_empty_default [of acts] by (simp add: undo_unfold)
next
  assume "history s = []"
  then show "undo now s = s"
    by (simp add: undo_unfold)
next
  assume a: "canvas s \<noteq> None \<and> activeImage s \<noteq> None \<and> length (history s) = 1"
  then have ne: "history s \<noteq> []" by auto
  show "image_state.adjustments (undo now s) = DEFAULT_ADJUSTMENTS"
    using a ne by (auto simp: undo_unfold updateAdjustment_loaded DEFAULT_ADJUSTMENTS_def)
qed

text \<open>
  Claim C5 as amended, at a store reached without any edit, and at a loaded store after one edit of the
  contrast.
\<close>

theorem undo_short_ledger_restores_defaults_witness:
  "history (run [SetCanvas example_canvas, SetActiveImage (Some example_image),
                 ToggleGrayscale, ResetAdjustments] initial_state) = [] \<and>
   image_state.adjustments
     (undo 5 (run [SetCanvas example_canvas, SetActiveImage (Some example_image),
                   ToggleGrayscale, ResetAdjustments] initial_state)) = DEFAULT_ADJUSTMENTS \<and>
   canvas (updateAdjustment 1 Key_contrast 40 loaded_state) \<noteq> None \<and>
   activeImage (updateAdjustment 1 Key_contrast 40 loaded_state) \<noteq> None \<and>
   length (history (updateAdjustment 1 Key_contrast 40 loaded_state)) = 1 \<and>
   contrast (image_state.adjustments (updateAdjustment 1 Key_contrast 40 loaded_state)) = 40 \<and>
   image_state.adjustments (undo 5 (updateAdjustment 1 Key_contrast 40 loaded_state)) =
     DEFAULT_ADJUSTMENTS"
proof -
  have r: "history (run [SetCanvas example_canvas, SetActiveImage (Some example_image),
                 ToggleGrayscale, ResetAdjustments] initial_state) = []"
    by (simp add: run_def setCanvas_def setActiveImage_def toggleGrayscale_def
          resetAdjustments_def initial_state_def)
  have u: "canvas (updateAdjustment 1 Key_contrast 40 loaded_state) \<noteq> None"
    "activeImage (updateAdjustment 1 Key_contrast 40 loaded_state) \<noteq> None"
    "length (history (updateAdjustment 1 Key_contrast 40 loaded_state)) = 1"
    "contrast (image_state.adjustments (updateAdjustment 1 Key_contrast 40 loaded_state)) = 40"
    by (simp_all add: updateAdjustment_loaded loaded_state_simps)
  show ?thesis
    using undo_short_ledger_restores_defaults [of
      "[SetCanvas example_canvas, SetActiveImage (Some example_image),
        ToggleGrayscale, ResetAdjustments]"
      5 "updateAdjustment 1 Key_contrast 40 loaded_state"] r u
    by simp
qed


section \<open>The range of the knobs\<close>

lemma set_knob_in_range:
  "in_range a \<Longrightarrow> - 100 \<le> val \<Longrightarrow> val \<le> 100 \<Longrightarrow> in_range (set_knob key val a)"
  by (cases key) (simp_all add: in_range_def)

lemma updateAdjustment_in_range:
  "in_range (image_state.adjustments s) \<Longrightarrow> - 100 \<le> val \<Longrightarrow> val \<le> 100 \<Longrightarrow>
   in_range (image_state.adjustments (updateAdjustment now key val s))"
  by (cases "canvas s = None \<or> activeImage s = None")
     (auto simp: updateAdjustment_unloaded updateAdjustment_loaded set_knob_in_range)

lemma updates_in_range:
  "in_range (image_state.adjustments s) \<Longrightarrow>
   \<forall>(now, key, val) \<in> set calls. - 100 \<le> val \<and> val \<le> 100 \<Longrightarrow>
   in_range (image_state.adjustments (updates calls s))"
proof (induction calls arbitrary: s)
  case Nil
  then show ?case by (simp add: updates_def)
next
  case (Cons call calls)
  obtain now key val where call: "call = (now, key, val)" by (cases call) auto
  show ?case
    unfolding call updates_Cons
    using Cons.prems by (intro Cons.IH updateAdjustment_in_range) (auto simp: call)
qed

text \<open>
  Claim C2 fails: \<^verbatim>\<open>updateAdjustment('brightness', 150)\<close> stores 150 and
  \<^verbatim>\<open>updateAdjustment('contrast', -300)\<close> stores -300; the stored adjustments are then
  out of the range \<open>[-100, 100]\<close>.
\<close>

theorem updateAdjustment_not_clamped:
  "brightness (image_state.adjustments (updateAdjustment 1 Key_brightness 150 loaded_state)) = 150 \<and>
   contrast (image_state.adjustments (updateAdjustment 1 Key_contrast (- 300) loaded_state)) = - 300 \<and>
   \<not> in_range (image_state.adjustments (updateAdjustment 1 Key_brightness 150 loaded_state))"
  by (simp add: updateAdjustment_loaded loaded_state_simps in_range_def)

text \<open>
  Claim C2 as amended. With a canvas and an active image, \<^verbatim>\<open>updateAdjustment(key, value)\<close>
  stores the value it is given, unchanged. When the stored knobs are in \<open>[-100, 100]\<close> and
  every value passed is in \<open>[-100, 100]\<close>, every knob is in \<open>[-100, 100]\<close> after any
  sequence of \<^verbatim>\<open>updateAdjustment\<close> calls.
\<close>

theorem updateAdjustment_stores_given_value:
  "(canvas s \<noteq> None \<and> activeImage s \<noteq> None \<longrightarrow>
      get_knob key (image_state.adjustments (updateAdjustment now key val s)) = val) \<and>
   (in_range (image_state.adjustments s) \<and>
    (\<forall>(now, key, val) \<in> set calls. - 100 \<le> val \<and> val \<le> 100) \<longrightarrow>
      in_range (image_state.adjustments (updates calls s)))"
  by (simp add: updateAdjustment_loaded get_set_knob updates_in_range)

text \<open>Claim C2 as amended, at the loaded store: one sharpness edit, and three edits in a row.\<close>

theorem updateAdjustment_stores_given_value_witness:
  "canvas loaded_state \<noteq> None \<and> activeImage loaded_state \<noteq> None \<and>
   get_knob Key_sharpness
     (image_state.adjustments (updateAdjustment 1 Key_sharpness 70 loaded_state)) = 70 \<and>
   in_range (image_state.adjustments loaded_state) \<and>
   map (snd \<circ> snd) three_calls = [10, 20, 30] \<and>
   in_range (image_state.adjustments (updates three_calls loaded_state))"
  using updateAdjustment_stores_given_value [of loaded_state Key_sharpness 1 70 three_calls]
  by (simp add: loaded_state_simps in_range_def DEFAULT_ADJUSTMENTS_def three_calls_def)


section \<open>The order of the filter list\<close>

text \<open>
  \<^verbatim>\<open>toggleGrayscale\<close> edits the list it finds. The list that \<^verbatim>\<open>updateAdjustment\<close>
  builds while the grayscale flag is set starts with the grayscale operation.
\<close>

lemma toggleGrayscale_loaded:
  assumes "canvas s \<noteq> None" "activeImage s = Some img"
  shows "activeImage (toggleGrayscale s) =
           Some (img\<lparr>filters :=
             (if isGrayscale s then filter (\<lambda>f. f \<noteq> Grayscale) (filters img)
              else filters img @ [Grayscale])\<rparr>)"
    and "isGrayscale (toggleGrayscale s) = (\<not> isGrayscale s)"
    and "image_state.adjustments (toggleGrayscale s) = image_state.adjustments s"
    and "history (toggleGrayscale s) = history s"
  using assms by (auto simp: toggleGrayscale_def)

lemma updateAdjustment_grayscale_first:
  assumes "canvas s \<noteq> None" "activeImage s \<noteq> None" "isGrayscale s"
  shows "\<exists>img. activeImage (updateAdjustment now key val s) = Some img \<and>
           grayscale_precedes (filters img)"
  using assms
  by (auto simp: updateAdjustment_def addHistoryEntry_def Let_def grayscale_precedes_def)

text \<open>
  Claim C3, evaluated on a loaded image after one brightness edit. \<^verbatim>\<open>toggleGrayscale\<close>
  sets the flag and pushes the grayscale operation onto the end of the existing list, after
  the brightness, contrast, saturation, sharpness and noise operations: the list is not
  rebuilt, and grayscale does not precede the other operations.
\<close>

theorem toggleGrayscale_pushes_grayscale_last:
  "isGrayscale (toggleGrayscale (updateAdjustment 1 Key_brightness 10 loaded_state)) \<and>
   map_option filters
     (activeImage (toggleGrayscale (updateAdjustment 1 Key_brightness 10 loaded_state))) =
     Some [Brightness (1 / 10), Contrast 0, Saturation 0, Sharpness 0, Noise 0, Grayscale] \<and>
   \<not> grayscale_precedes
     [Brightness (1 / 10), Contrast 0, Saturation 0, Sharpness 0, Noise 0, Grayscale]"
  by (simp add: toggleGrayscale_def updateAdjustment_def addHistoryEntry_def Let_def
        loaded_state_simps grayscale_precedes_def DEFAULT_ADJUSTMENTS_def)

section \<open>Presets\<close>

lemma applyPreset_updates: "applyPreset clock p s = updates (preset_calls clock p) s"
  by (simp add: applyPreset_def preset_calls_def updates_def entries_def eval_nat_numeral)

lemma applyPreset_adjustments:
  assumes "canvas s \<noteq> None" "activeImage s \<noteq> None"
  shows "image_state.adjustments (applyPreset clock p s) = preset.adjustments p"
  using assms by (simp add: applyPreset_unfold updateAdjustment_loaded)

lemma applyPreset_history:
  assumes "canvas s \<noteq> None" "activeImage s \<noteq> None"
  shows "history (applyPreset clock p s) =
    drop (length (history s) - 15) (history s) @
    snapshots (image_state.adjustments s) (preset_calls clock p)"
proof -
  have ne: "preset_calls clock p \<noteq> []" and len: "length (preset_calls clock p) = 5"
    by (simp_all add: preset_calls_def)
  show ?thesis
    using assms by (simp add: applyPreset_updates updates_history [OF _ _ ne] length_snapshots len)
qed

lemma applyPreset_presets: "presets (applyPreset clock p s) = presets s"
proof (cases "canvas s = None \<or> activeImage s = None")
  case True
  then show ?thesis by (simp add: applyPreset_unfold updateAdjustment_unloaded)
next
  case False
  then show ?thesis by (simp add: applyPreset_unfold updateAdjustment_loaded)
qed

text \<open>
  Claim C6. In every store with a canvas and an active image, and for every preset,
  \<^verbatim>\<open>applyPreset\<close> is the sequence of five \<^verbatim>\<open>updateAdjustment\<close> calls, one per knob in
  the order of the knobs. It appends exactly five snapshots to the ledger, one per call
  (the ledger keeps its 15 most recent entries before them), and afterwards the stored
  adjustments are the preset's; so they are when the preset was first registered with
  \<^verbatim>\<open>addPreset\<close>, which puts it at the end of the preset list.
\<close>

theorem applyPreset_round_trip:
  "canvas s \<noteq> None \<and> activeImage s \<noteq> None \<longrightarrow>
     applyPreset clock p s = updates (preset_calls clock p) s \<and>
     history (applyPreset clock p s) =
       drop (length (history s) - 15) (history s) @
       snapshots (image_state.adjustments s) (preset_calls clock p) \<and>
     length (snapshots (image_state.adjustments s) (preset_calls clock p)) = 5 \<and>
     image_state.adjustments (applyPreset clock p s) = preset.adjustments p \<and>
     image_state.adjustments (applyPreset clock p (addPreset p s)) = preset.adjustments p \<and>
     presets (applyPreset clock p (addPreset p s)) = presets s @ [p]"
proof (intro impI conjI)
  assume a: "canvas s \<noteq> None \<and> activeImage s \<noteq> None"
  show "applyPreset clock p s = updates (preset_calls clock p) s"
    by (rule applyPreset_updates)
  show "history (applyPreset clock p s) =
       drop (length (history s) - 15) (history s) @
       snapshots (image_state.adjustments s) (preset_calls clock p)"
    using a by (simp add: applyPreset_history)
  show "length (snapshots (image_state.adjustments s) (preset_calls clock p)) = 5"
    by (simp add: length_snapshots preset_calls_def)
  show "image_state.adjustments (applyPreset clock p s) = preset.adjustments p"
    using a by (simp add: applyPreset_adjustments)
  show "image_state.adjustments (applyPreset clock p (addPreset p s)) = preset.adjustments p"
    using a by (simp add: applyPreset_adjustments addPreset_def)
  show "presets (applyPreset clock p (addPreset p s)) = presets s @ [p]"
    by (simp add: applyPreset_presets addPreset_def)
qed

text \<open>
  Claim C6 at the store with three ledger entries: preset X is registered and applied, and
  the ledger grows from three entries to eight.
\<close>

theorem applyPreset_round_trip_witness:
  "canvas edited_state \<noteq> None \<and> activeImage edited_state \<noteq> None \<and>
   image_state.adjustments (applyPreset (\<lambda>i. 10 + i) preset_X (addPreset preset_X edited_state)) =
     \<lparr>brightness = 10, contrast = 20, saturation = 30, sharpness = 40, noise = 50\<rparr> \<and>
   presets (applyPreset (\<lambda>i. 10 + i) preset_X (addPreset preset_X edited_state)) =
     DEFAULT_PRESETS @ [preset_X] \<and>
   length (history edited_state) = 3 \<and>
   map timestamp (history (applyPreset (\<lambda>i. 10 + i) preset_X edited_state)) =
     [1, 2, 3, 10, 11, 12, 13, 14] \<and>
   map (brightness \<circ> history_entry.adjustments)
     (history (applyPreset (\<lambda>i. 10 + i) preset_X edited_state)) =
     [10, 10, 10, 10, 10, 10, 10, 10] \<and>
   map (noise \<circ> history_entry.adjustments)
     (history (applyPreset (\<lambda>i. 10 + i) preset_X edited_state)) =
     [0, 0, 0, 0, 0, 0, 0, 50]"
proof -
  have p: "presets edited_state = DEFAULT_PRESETS"
    by (simp add: edited_state_def three_calls_def updates_def updateAdjustment_loaded
          loaded_state_simps)
  have c: "canvas edited_state \<noteq> None \<and> activeImage edited_state \<noteq> None"
    by (simp add: edited_state_simps)
  note w = applyPreset_round_trip [of edited_state "\<lambda>i. 10 + i" preset_X, rule_format, OF c]
  have h: "history (applyPreset (\<lambda>i. 10 + i) preset_X edited_state) =
       drop (length (history edited_state) - 15) (history edited_state) @
       snapshots (image_state.adjustments edited_state) (preset_calls (\<lambda>i. 10 + i) preset_X)"
    using w by blast
  have a: "image_state.adjustments
      (applyPreset (\<lambda>i. 10 + i) preset_X (addPreset preset_X edited_state)) =
      preset.adjustments preset_X"
    using w by blast
  have q: "presets (applyPreset (\<lambda>i. 10 + i) preset_X (addPreset preset_X edited_state)) =
      presets edited_state @ [preset_X]"
    using w by blast
  show ?thesis
    unfolding h a q
    by (simp add: edited_state_simps p preset_calls_def preset_X_def)
qed

text \<open>
  Claim C8 fails: in the initial registry, \<^verbatim>\<open>deletePreset("Vintage")\<close> removes the
  built-in preset Vintage.
\<close>

theorem deletePreset_removes_builtin:
  "map preset.name (presets (deletePreset ''Vintage'' initial_state)) =
     [''Dramatic'', ''Classic B&W''] \<and>
   presets (deletePreset ''Vintage'' initial_state) \<noteq> presets initial_state"
  by (simp add: deletePreset_def initial_state_def DEFAULT_PRESETS_def)

text \<open>
  Claim C8 as amended. \<^verbatim>\<open>deletePreset(name)\<close> removes every preset of that name from
  the registry, built-in or not. The protection is in the interface: for a preset with the
  name of a built-in, no delete button is shown, and the registry stays as it is.
\<close>

theorem deletePreset_guarded_by_interface:
  "presets (deletePreset presetName s) =
     filter (\<lambda>p. preset.name p \<noteq> presetName) (presets s) \<and>
   (preset.name p \<in> set (map preset.name DEFAULT_PRESETS) \<longrightarrow>
      \<not> delete_button_shown p \<and> click_delete p s = s)"
  by (auto simp: deletePreset_def click_delete_def delete_button_shown_def find_None_iff)

text \<open>Claim C8 as amended, at the built-in preset Vintage in the initial store.\<close>

theorem deletePreset_guarded_by_interface_witness:
  "preset.name (hd DEFAULT_PRESETS) = ''Vintage'' \<and>
   preset.name (hd DEFAULT_PRESETS) \<in> set (map preset.name DEFAULT_PRESETS) \<and>
   click_delete (hd DEFAULT_PRESETS) initial_state = initial_state"
  using deletePreset_guarded_by_interface [of "''Vintage''" initial_state "hd DEFAULT_PRESETS"]
  by (simp add: DEFAULT_PRESETS_def)

text \<open>
  Claim C9 fails: \<^verbatim>\<open>addPreset\<close> with a name of two spaces, empty once trimmed, appends
  the preset to the list.
\<close>

theorem addPreset_accepts_blank_name:
  "trim (preset.name blank_preset) = [] \<and>
   presets (addPreset blank_preset initial_state) = DEFAULT_PRESETS @ [blank_preset] \<and>
   presets (addPreset blank_preset initial_state) \<noteq> presets initial_state"
  by (simp add: addPreset_def initial_state_def blank_preset_def trim_def is_white_space_def)

text \<open>
  Claim C9 as amended. \<^verbatim>\<open>addPreset\<close> appends the preset it is given, whatever its
  name. The check is in its caller: \<^verbatim>\<open>handleSavePreset\<close> does not call the store when
  the name typed is empty after trimming, and the store is unchanged.
\<close>

theorem addPreset_validated_by_caller:
  "presets (addPreset p s) = presets s @ [p] \<and>
   (trim newPresetName = [] \<longrightarrow> handleSavePreset newPresetName s = s)"
  by (simp add: addPreset_def handleSavePreset_def)

text \<open>Claim C9 as amended, at a name of two spaces.\<close>

theorem addPreset_validated_by_caller_witness:
  "trim ''  '' = [] \<and> handleSavePreset ''  '' initial_state = initial_state"
  using addPreset_validated_by_caller [of blank_preset initial_state "''  ''"]
  by (simp add: trim_def is_white_space_def)


section \<open>Crop commit\<close>

lemma canvas_dimension_whole: "whole_pixels x \<Longrightarrow> real_of_int (canvas_dimension d x) = x"
proof -
  assume w: "whole_pixels x"
  then have "0 \<le> \<lfloor>x\<rfloor>" "\<lfloor>x\<rfloor> \<le> 2147483647"
    by (simp_all add: whole_pixels_def le_floor_iff floor_le_iff)
  then have "\<lfloor>x\<rfloor> mod 2 ^ 32 = \<lfloor>x\<rfloor>" by simp
  then show ?thesis
    using w \<open>\<lfloor>x\<rfloor> \<le> 2147483647\<close>
    by (simp add: canvas_dimension_def whole_pixels_def Let_def)
qed

lemma crop_mode_state_simps:
  "canvas crop_mode_state =
     Some \<lparr>objects = [ImageObj 1,
       RectObj \<lparr>ident = 2, left = 0, top' = 0, width = 201 / 2, height = 100,
                scaleX = 1, scaleY = 1, angle = 0\<rparr>]\<rparr>"
  "activeImage crop_mode_state = Some half_scale_image"
  by (simp_all add: crop_mode_state_def run_def setCanvas_def setActiveImage_def cropImage_def
        initial_state_def example_canvas_def half_scale_image_def exact_arithmetic_def Let_def)

text \<open>
  The size of the source rectangle: lines 329-330 divide the width and height of the overlay
  rectangle by the scale of the image and leave out the rectangle's own scale, which lines
  314-315 do use for the size of the destination. For the rectangle that the user has
  dragged to half the width, the whole width of the image, 200 pixels, is drawn into 100
  pixels.
\<close>

lemma applyCrop_source_size_leaves_out_rect_scale:
  "map_option (\<lambda>call. (sWidth call, sHeight call, dWidth call, dHeight call))
     (fst (applyCrop exact_arithmetic True 3 resized_cropping_state)) =
   Some (Some 200, Some 200, 100, 200)"
  by (simp add: applyCrop_def resized_cropping_state_def resized_rect_def setCanvas_def
        loaded_state_simps example_image_def exact_arithmetic_def js_div_def
        canvas_dimension_def Let_def)

text \<open>
  Claim C7 fails on the dimensions: for the image of 201 pixels shown at half its size, the
  overlay rectangle is 100.5 pixels wide on the surface, and the new active image is 100
  pixels wide, since a canvas has a whole number of pixels.
\<close>

theorem applyCrop_truncates_dimensions:
  "canvas crop_mode_state =
     Some \<lparr>objects = [ImageObj 1,
       RectObj \<lparr>ident = 2, left = 0, top' = 0, width = 201 / 2, height = 100,
                scaleX = 1, scaleY = 1, angle = 0\<rparr>]\<rparr> \<and>
   map_option width (activeImage (snd (applyCrop exact_arithmetic True 3 crop_mode_state))) =
     Some 100 \<and>
   map_option width (activeImage (snd (applyCrop exact_arithmetic True 3 crop_mode_state))) \<noteq>
     Some (201 / 2)"
  by (simp add: crop_mode_state_simps applyCrop_def Image_fromURL_def exact_arithmetic_def
        canvas_dimension_def Let_def)

text \<open>
  Claim C7 as amended. For every crop commit with a canvas, an active image, an overlay
  rectangle on the canvas and a 2D context, in JavaScript's arithmetic: the left and top of
  the source rectangle passed to \<^verbatim>\<open>drawImage\<close> are
  \<open>(rectLeft - imageLeft) / imageScaleX\<close> and \<open>(rectTop - imageTop) / imageScaleY\<close>; the
  new active image is at the rectangle's left and top, has both scales 1, and has the
  rectangle's surface dimensions (width times scaleX, height times scaleY) truncated to
  whole pixels, which are the surface dimensions themselves whenever these are whole numbers
  of pixels.
\<close>

theorem applyCrop_geometry:
  "canvas s = Some c \<and> activeImage s = Some img \<and> find_Rect (objects c) = Some cropRect \<longrightarrow>
     (\<exists>drawImage croppedImg.
        fst (applyCrop ar True new_ident s) = Some drawImage \<and>
        activeImage (snd (applyCrop ar True new_ident s)) = Some croppedImg \<and>
        sx drawImage = fl_div ar (fl_sub ar (left cropRect) (left img)) (scaleX img) \<and>
        sy drawImage = fl_div ar (fl_sub ar (top' cropRect) (top' img)) (scaleY img) \<and>
        left croppedImg = left cropRect \<and> top' croppedImg = top' cropRect \<and>
        scaleX croppedImg = 1 \<and> scaleY croppedImg = 1 \<and>
        width croppedImg =
          real_of_int (canvas_dimension 300 (fl_mul ar (width cropRect) (scaleX cropRect))) \<and>
        height croppedImg =
          real_of_int (canvas_dimension 150 (fl_mul ar (height cropRect) (scaleY cropRect))) \<and>
        (whole_pixels (fl_mul ar (width cropRect) (scaleX cropRect)) \<longrightarrow>
           width croppedImg = fl_mul ar (width cropRect) (scaleX cropRect)) \<and>
        (whole_pixels (fl_mul ar (height cropRect) (scaleY cropRect)) \<longrightarrow>
           height croppedImg = fl_mul ar (height cropRect) (scaleY cropRect)))"
  by (simp add: applyCrop_def Image_fromURL_def Let_def canvas_dimension_whole)

text \<open>
  Claim C7 as amended, at the 200 by 200 image with a rectangle over its left half: the
  source rectangle starts at the origin, and the new image is 100 by 200, at the origin,
  with scale 1.
\<close>

theorem applyCrop_geometry_witness:
  "canvas cropping_state = Some \<lparr>objects = [ImageObj 1, RectObj half_rect]\<rparr> \<and>
   activeImage cropping_state = Some example_image \<and>
   find_Rect [ImageObj 1, RectObj half_rect] = Some half_rect \<and>
   whole_pixels (fl_mul exact_arithmetic (width half_rect) (scaleX half_rect)) \<and>
   whole_pixels (fl_mul exact_arithmetic (height half_rect) (scaleY half_rect)) \<and>
   map_option (\<lambda>call. (sx call, sy call))
     (fst (applyCrop exact_arithmetic True 3 cropping_state)) = Some (Some 0, Some 0) \<and>
   map_option (\<lambda>i. (left i, top' i, width i, height i, scaleX i, scaleY i))
     (activeImage (snd (applyCrop exact_arithmetic True 3 cropping_state))) =
     Some (0, 0, 100, 200, 1, 1)"
proof -
  have c: "canvas cropping_state = Some \<lparr>objects = [ImageObj 1, RectObj half_rect]\<rparr> \<and>
     activeImage cropping_state = Some example_image \<and>
     find_Rect (objects \<lparr>objects = [ImageObj 1, RectObj half_rect]\<rparr>) = Some half_rect"
    by (simp add: cropping_state_def setCanvas_def loaded_state_simps)
  have w: "whole_pixels (fl_mul exact_arithmetic (width half_rect) (scaleX half_rect))"
    "whole_pixels (fl_mul exact_arithmetic (height half_rect) (scaleY half_rect))"
    by (simp_all add: whole_pixels_def half_rect_def exact_arithmetic_def)
  note g = applyCrop_geometry [of cropping_state "\<lparr>objects = [ImageObj 1, RectObj half_rect]\<rparr>"
      example_image half_rect exact_arithmetic 3, rule_format, OF c]
  from g obtain drawImage croppedImg where
    i: "fst (applyCrop exact_arithmetic True 3 cropping_state) = Some drawImage"
      "activeImage (snd (applyCrop exact_arithmetic True 3 cropping_state)) = Some croppedImg"
      "sx drawImage =
         fl_div exact_arithmetic (fl_sub exact_arithmetic (left half_rect) (left example_image))
           (scaleX example_image)"
      "sy drawImage =
         fl_div exact_arithmetic (fl_sub exact_arithmetic (top' half_rect) (top' example_image))
           (scaleY example_image)"
      "left croppedImg = left half_rect" "top' croppedImg = top' half_rect"
      "scaleX croppedImg = 1" "scaleY croppedImg = 1"
      "width croppedImg = fl_mul exact_arithmetic (width half_rect) (scaleX half_rect)"
      "height croppedImg = fl_mul exact_arithmetic (height half_rect) (scaleY half_rect)"
    using w by blast
  show ?thesis
    using c w
    by (simp add: i) (simp add: half_rect_def example_image_def exact_arithmetic_def js_div_def)
qed

end
